theory Spec2Isabelle
  imports Main
begin

section \<open>Python strings: slices, rfind, strip\<close>

text \<open>
  A Python \<open>str\<close> is modelled as an Isabelle \<open>string\<close>, one \<open>char\<close> per code point
  (code points up to 255). Offsets are Python integers (\<open>int\<close>): the chunker's
  \<open>start\<close> can become negative, and Python then counts from the end of the string.
\<close>

text \<open>Index normalisation of \<open>s[i:j]\<close> and of \<open>s.rfind(c, i, j)\<close> for a string of length \<open>n\<close>:
  a negative index has \<open>n\<close> added and is then clipped at 0, a non-negative one is clipped at \<open>n\<close>.\<close>

definition adjust_index :: "nat \<Rightarrow> int \<Rightarrow> nat" where
  "adjust_index n i = (if i < 0 then nat (max (i + int n) 0) else min (nat i) n)"

definition py_slice :: "string \<Rightarrow> int \<Rightarrow> int \<Rightarrow> string" where
  "py_slice s i j =
     (let a = adjust_index (length s) i; b = adjust_index (length s) j
      in take (b - a) (drop a s))"

text \<open>\<open>rfind_down s c a b\<close>: the highest index \<open>p\<close> with \<open>a \<le> p < b\<close> and \<open>s[p] = c\<close>, or \<open>-1\<close>.\<close>

fun rfind_down :: "string \<Rightarrow> char \<Rightarrow> nat \<Rightarrow> nat \<Rightarrow> int" where
  "rfind_down s c a 0 = - 1"
| "rfind_down s c a (Suc k) =
     (if Suc k \<le> a then - 1
      else if s ! k = c then int k
      else rfind_down s c a k)"

definition rfind :: "string \<Rightarrow> char \<Rightarrow> int \<Rightarrow> int \<Rightarrow> int" where
  "rfind s c i j = rfind_down s c (adjust_index (length s) i) (adjust_index (length s) j)"

text \<open>\<open>str.isspace\<close> on the code points below 256: tab to carriage return, the four
  separators \<open>0x1C..0x1F\<close>, space, \<open>0x85\<close> and \<open>0xA0\<close>.\<close>

definition isspace :: "char \<Rightarrow> bool" where
  "isspace c =
     (let n = (of_char c :: nat)
      in (9 \<le> n \<and> n \<le> 13) \<or> (28 \<le> n \<and> n \<le> 32) \<or> n = 133 \<or> n = 160)"

definition strip :: "string \<Rightarrow> string" where
  "strip s = rev (dropWhile isspace (rev (dropWhile isspace s)))"

section \<open>rag/chunker.py\<close>

text \<open>Values of a chunk's metadata dict: the three integers the chunker writes, and the
  caller's own values, which the chunker only copies.\<close>

datatype 'v meta_value = IntV int | UserV 'v

type_synonym 'v metadata = "string \<rightharpoonup> 'v meta_value"

text \<open>The dict \<open>{'text': ..., 'metadata': ...}\<close> appended for each chunk.\<close>

record 'v chunk =
  ctext :: string
  metadata :: "'v metadata"

record TextChunker =
  chunk_size :: int
  chunk_overlap :: int

datatype config_error = ConfigError string

text \<open>\<open>TextChunker.__init__\<close> (lines 8-17) stores both parameters; it has no check and
  no \<open>raise\<close>, so the error side of the result is never taken.\<close>

definition TextChunker_init :: "int \<Rightarrow> int \<Rightarrow> config_error + TextChunker" where
  "TextChunker_init chunk_size0 chunk_overlap0 =
     Inr \<lparr>chunk_size = chunk_size0, chunk_overlap = chunk_overlap0\<rparr>"

text \<open>Lines 37-46: the end of the slice that starts at \<open>start\<close>.\<close>

definition slice_end :: "TextChunker \<Rightarrow> string \<Rightarrow> int \<Rightarrow> int" where
  "slice_end self text start =
     (let end = start + chunk_size self
      in if end < int (length text) then
           (let last_period = rfind text (CHR ''.'') start end;
                last_newline = rfind text (CHR 0x0A) start end;
                last_space = rfind text (CHR '' '') start end;
                split_point = max (max last_period last_newline) last_space
            in if split_point > start then split_point + 1 else end)
         else end)"

text \<open>Lines 51-61: the chunk dict built from a non-empty stripped slice.\<close>

definition new_chunk :: "'v metadata option \<Rightarrow> string \<Rightarrow> int \<Rightarrow> int \<Rightarrow> nat \<Rightarrow> 'v chunk" where
  "new_chunk meta chunk_text start end index =
     (let chunk_metadata = (case meta of None \<Rightarrow> Map.empty | Some m \<Rightarrow> m)
      in \<lparr>ctext = chunk_text,
          metadata = chunk_metadata(''chunk_start'' \<mapsto> IntV start,
                                    ''chunk_end'' \<mapsto> IntV end,
                                    ''chunk_index'' \<mapsto> IntV (int index))\<rparr>)"

text \<open>Lines 48-61: the slice is stripped and appended unless it is empty.\<close>

definition emit :: "'v metadata option \<Rightarrow> string \<Rightarrow> 'v chunk list \<Rightarrow> int \<Rightarrow> int \<Rightarrow> 'v chunk list" where
  "emit meta text chunks start end =
     (let chunk_text = strip (py_slice text start end)
      in if chunk_text \<noteq> [] then chunks @ [new_chunk meta chunk_text start end (length chunks)]
         else chunks)"

text \<open>Line 63: the next value of \<open>start\<close>.\<close>

definition next_start :: "TextChunker \<Rightarrow> string \<Rightarrow> int \<Rightarrow> int" where
  "next_start self text end =
     (if end < int (length text) then end - chunk_overlap self else end)"

text \<open>The \<open>while\<close> loop of lines 36-63. Nothing in the source bounds the number of
  iterations, so the loop is a partial function: \<open>None\<close> is a run that never returns.\<close>

partial_function (option) chunk_loop ::
  "TextChunker \<Rightarrow> string \<Rightarrow> 'v metadata option \<Rightarrow> 'v chunk list \<Rightarrow> int \<Rightarrow> 'v chunk list option"
where
  "chunk_loop self text meta chunks start =
     (if start < int (length text) then
        chunk_loop self text meta
          (emit meta text chunks start (slice_end self text start))
          (next_start self text (slice_end self text start))
      else Some chunks)"

declare chunk_loop.simps [code]

definition chunk_text :: "TextChunker \<Rightarrow> string \<Rightarrow> 'v metadata option \<Rightarrow> 'v chunk list option" where
  "chunk_text self text meta = (if text = [] then Some [] else chunk_loop self text meta [] 0)"

text \<open>The three \<open>rfind\<close> calls and the \<open>max\<close> of lines 40-44, as one value.\<close>

definition split_point :: "string \<Rightarrow> int \<Rightarrow> int \<Rightarrow> int" where
  "split_point text start end =
     max (max (rfind text (CHR ''.'') start end) (rfind text (CHR 0x0A) start end))
         (rfind text (CHR '' '') start end)"

text \<open>A finite run of the loop from \<open>start\<close>, as the list of the slices \<open>(start, end)\<close> it
  cuts, one per iteration: each slice ends where \<open>slice_end\<close> says, the next one starts
  where \<open>next_start\<close> says, and the run stops at the first \<open>start\<close> that is not below
  \<open>len(text)\<close>.\<close>

fun slices_from :: "TextChunker \<Rightarrow> string \<Rightarrow> int \<Rightarrow> (int \<times> int) list \<Rightarrow> bool" where
  "slices_from self text start [] = (\<not> start < int (length text))"
| "slices_from self text start (se # rest) =
     (start < int (length text) \<and> fst se = start \<and> snd se = slice_end self text start \<and>
      slices_from self text (next_start self text (snd se)) rest)"

text \<open>The chunk list after the iterations that cut the given slices.\<close>

fun emit_all ::
  "'v metadata option \<Rightarrow> string \<Rightarrow> 'v chunk list \<Rightarrow> (int \<times> int) list \<Rightarrow> 'v chunk list" where
  "emit_all meta text chunks [] = chunks"
| "emit_all meta text chunks (se # rest) =
     emit_all meta text (emit meta text chunks (fst se) (snd se)) rest"

text \<open>Whether the slice \<open>text[start:end]\<close> is kept by line 50: its stripped text is not
  empty.\<close>

definition nonblank :: "string \<Rightarrow> int \<times> int \<Rightarrow> bool" where
  "nonblank text se = (strip (py_slice text (fst se) (snd se)) \<noteq> [])"

text \<open>What a chunk records of its slice: its text and the values under \<open>'chunk_start'\<close>
  and \<open>'chunk_end'\<close>; and the same three values as the loop computes them from a slice.\<close>

definition chunk_fields :: "'v chunk \<Rightarrow> string \<times> 'v meta_value option \<times> 'v meta_value option" where
  "chunk_fields c = (ctext c, metadata c ''chunk_start'', metadata c ''chunk_end'')"

definition slice_fields :: "string \<Rightarrow> int \<times> int \<Rightarrow> string \<times> 'v meta_value option \<times> 'v meta_value option" where
  "slice_fields text se =
     (strip (py_slice text (fst se) (snd se)), Some (IntV (fst se)), Some (IntV (snd se)))"

text \<open>The boundary rule of claim C2, in the words of the specification: the indices of the
  window \<open>[start, end)\<close> that hold \<open>'.'\<close>, a newline or a space; and the end of the chunk
  that starts at \<open>start\<close>: tentatively \<open>start + chunk_size\<close>, snapped to \<open>p + 1\<close> for the
  maximum such index \<open>p\<close> when the tentative end is before \<open>len(text)\<close> and \<open>p > start\<close>.\<close>

definition delimiter_positions :: "string \<Rightarrow> int \<Rightarrow> int \<Rightarrow> int list" where
  "delimiter_positions text start end =
     filter (\<lambda>p. text ! nat p \<in> {CHR ''.'', CHR 0x0A, CHR '' ''}) [start..end - 1]"

definition snapped_end :: "string \<Rightarrow> int \<Rightarrow> int \<Rightarrow> int" where
  "snapped_end text size0 start =
     (let end = start + size0
      in if end < int (length text) then
           (let ps = delimiter_positions text start end
            in if ps \<noteq> [] \<and> Max (set ps) > start then Max (set ps) + 1 else end)
         else end)"

section \<open>Python values that cross the MCP boundary\<close>

text \<open>
  A decoded JSON body and every value inside it. Python's \<open>None\<close> is \<open>JNull\<close>, a dict is a
  map from its string keys. Numbers are the integers; floating-point numbers are outside
  the model.
\<close>

datatype json =
    JNull
  | JBool bool
  | JNum int
  | JStr string
  | JArr "json list"
  | JObj "string \<Rightarrow> json option"

text \<open>Python truthiness, as tested by \<open>not data\<close> and \<open>if self.error\<close>.\<close>

fun truthy :: "json \<Rightarrow> bool" where
  "truthy JNull = False"
| "truthy (JBool b) = b"
| "truthy (JNum n) = (n \<noteq> 0)"
| "truthy (JStr s) = (s \<noteq> [])"
| "truthy (JArr xs) = (xs \<noteq> [])"
| "truthy (JObj m) = (m \<noteq> Map.empty)"

text \<open>\<open>d.get(key)\<close>: the value, or \<open>None\<close> when the key is absent.\<close>

definition dict_get :: "(string \<rightharpoonup> json) \<Rightarrow> string \<Rightarrow> json" where
  "dict_get d key = (case d key of None \<Rightarrow> JNull | Some v \<Rightarrow> v)"

text \<open>Decimal digits of a Python integer, as \<open>str\<close> and f-strings print it.\<close>

fun show_nat :: "nat \<Rightarrow> string" where
  "show_nat n =
     (if n < 10 then [char_of (48 + n)]
      else show_nat (n div 10) @ [char_of (48 + n mod 10)])"

declare show_nat.simps [simp del]

definition show_int :: "int \<Rightarrow> string" where
  "show_int i = (if i < 0 then CHR ''-'' # show_nat (nat (- i)) else show_nat (nat i))"

text \<open>\<open>str(v)\<close> for the hashable JSON values; a list or a dict is unhashable and has no
  entry here.\<close>

fun str_of_hashable :: "json \<Rightarrow> string option" where
  "str_of_hashable JNull = Some ''None''"
| "str_of_hashable (JBool b) = Some (if b then ''True'' else ''False'')"
| "str_of_hashable (JNum n) = Some (show_int n)"
| "str_of_hashable (JStr s) = Some s"
| "str_of_hashable (JArr xs) = None"
| "str_of_hashable (JObj m) = None"

text \<open>The name of a value's Python type, as it appears in exception messages.\<close>

fun type_name :: "json \<Rightarrow> string" where
  "type_name JNull = ''NoneType''"
| "type_name (JBool b) = ''bool''"
| "type_name (JNum n) = ''int''"
| "type_name (JStr s) = ''str''"
| "type_name (JArr xs) = ''list''"
| "type_name (JObj m) = ''dict''"

abbreviation quote :: char where
  "quote \<equiv> CHR 0x27"

section \<open>mcp/protocol.py\<close>

text \<open>\<open>MCPResponse\<close>: the dataclass assigns no types at run time, so each field holds any
  value; the field \<open>id\<close> is named \<open>ident\<close> here.\<close>

record MCPResponse =
  result :: json
  error :: json
  ident :: json

text \<open>Lines 46-56.\<close>

definition to_dict :: "MCPResponse \<Rightarrow> (string \<rightharpoonup> json)" where
  "to_dict self =
     (let response = [''type'' \<mapsto> JStr ''response'', ''id'' \<mapsto> ident self]
      in if truthy (error self) then response(''error'' \<mapsto> error self)
         else response(''result'' \<mapsto> result self))"

text \<open>Lines 58-65.\<close>

definition from_dict :: "(string \<rightharpoonup> json) \<Rightarrow> MCPResponse" where
  "from_dict data =
     \<lparr>result = dict_get data ''result'',
      error = dict_get data ''error'',
      ident = dict_get data ''id''\<rparr>"

section \<open>mcp/server.py: the dispatch of \<open>handle_mcp_request\<close>\<close>

text \<open>A registered handler takes the request's \<open>params\<close> and returns a value or raises;
  \<open>Inl msg\<close> is an exception whose \<open>str\<close> is \<open>msg\<close>. The handler table maps method
  names to handlers.\<close>

type_synonym handler = "json \<Rightarrow> string + json"

type_synonym handlers = "string \<rightharpoonup> handler"

text \<open>A response: the JSON body given to \<open>jsonify\<close> and the HTTP status.\<close>

type_synonym http_response = "(string \<rightharpoonup> json) \<times> nat"

text \<open>Lines 39-42.\<close>

definition invalid_request :: http_response where
  "invalid_request = ([''type'' \<mapsto> JStr ''error'', ''error'' \<mapsto> JStr ''Invalid request format''], 400)"

text \<open>Lines 68-73: the outer \<open>except Exception\<close>, with the message of the exception.\<close>

definition processing_error :: "string \<Rightarrow> http_response" where
  "processing_error msg = ([''type'' \<mapsto> JStr ''error'', ''error'' \<mapsto> JStr msg], 500)"

text \<open>\<open>method not in self.handlers\<close> and \<open>self.handlers[method]\<close> for a hashable
  \<open>method\<close>: the keys of the table are strings, so only a string can be found.\<close>

definition lookup_handler :: "handlers \<Rightarrow> json \<Rightarrow> handler option" where
  "lookup_handler hs method = (case method of JStr name \<Rightarrow> hs name | _ \<Rightarrow> None)"

text \<open>
  Lines 35-73, for the decoded body \<open>data\<close> that \<open>request.get_json()\<close> returned.
  A body that is truthy and not a dict has no \<open>get\<close>: the \<open>AttributeError\<close> is caught by
  the outer handler. A \<open>method\<close> that is a list or a dict cannot be looked up in a dict:
  the \<open>TypeError\<close> is caught by the outer handler too. The message texts of these two
  exceptions are CPython's.
\<close>

definition handle_mcp_request :: "handlers \<Rightarrow> json \<Rightarrow> http_response" where
  "handle_mcp_request hs data =
     (if \<not> truthy data then invalid_request
      else case data of
        JObj d \<Rightarrow>
          if dict_get d ''type'' \<noteq> JStr ''request'' then invalid_request
          else
            (let method = dict_get d ''method'';
                 params = (case d ''params'' of None \<Rightarrow> JObj Map.empty | Some p \<Rightarrow> p);
                 request_id = dict_get d ''id''
             in case str_of_hashable method of
                  None \<Rightarrow>
                    processing_error (''unhashable type: '' @ [quote] @ type_name method @ [quote])
                | Some name \<Rightarrow>
                    (case lookup_handler hs method of
                       None \<Rightarrow>
                         (to_dict \<lparr>result = JNull,
                                   error = JStr (''Method '' @ [quote] @ name @ [quote] @ '' not found''),
                                   ident = request_id\<rparr>, 404)
                     | Some h \<Rightarrow>
                         (case h params of
                            Inr res \<Rightarrow>
                              (to_dict \<lparr>result = res, error = JNull, ident = request_id\<rparr>, 200)
                          | Inl msg \<Rightarrow>
                              (to_dict \<lparr>result = JNull,
                                        error = JStr (''Error executing method: '' @ msg),
                                        ident = request_id\<rparr>, 500))))
      | _ \<Rightarrow>
          processing_error
            ([quote] @ type_name data @ [quote] @ '' object has no attribute '' @ [quote] @ ''get'' @ [quote]))"

section \<open>rag/retriever.py\<close>

text \<open>
  A retrieved document is a dict that holds its text under \<open>'document'\<close>; the other keys
  (\<open>'id'\<close>, \<open>'metadata'\<close>, \<open>'distance'\<close>) are carried in the extension of the record and are
  never read by the retriever or the pipeline.
\<close>

record RetrievedDocument =
  document :: string

text \<open>
  A call to an external collaborator (the vector store, the LLM client) runs in the
  outside world \<open>'w\<close>: it returns a value or raises (\<open>Inl msg\<close>, with the exception's
  message), and leaves a new world behind.
\<close>

type_synonym ('w, 'a) call = "'w \<Rightarrow> (string + 'a) \<times> 'w"

text \<open>The \<open>VectorStore\<close> interface, as far as the retriever uses it: \<open>similarity_search\<close>
  with its arguments \<open>query\<close>, \<open>k\<close> and \<open>filter\<close>. The filter is an opaque value.\<close>

record ('w, 'd, 'f) VectorStore =
  similarity_search :: "string \<Rightarrow> int \<Rightarrow> 'f option \<Rightarrow> ('w, 'd list) call"

text \<open>\<open>Retriever\<close>; its \<open>embedding_model\<close> attribute is stored and never used.\<close>

record ('w, 'd, 'f) Retriever =
  vector_store :: "('w, 'd, 'f) VectorStore"
  top_k :: int

text \<open>Line 44, \<open>k = k or self.top_k\<close>: \<open>None\<close> and \<open>0\<close> are both falsy.\<close>

definition k_or_top_k :: "int option \<Rightarrow> int \<Rightarrow> int" where
  "k_or_top_k k top_k0 = (case k of None \<Rightarrow> top_k0 | Some n \<Rightarrow> if n = 0 then top_k0 else n)"

text \<open>Lines 27-52.\<close>

definition retrieve ::
  "('w, 'd, 'f) Retriever \<Rightarrow> string \<Rightarrow> int option \<Rightarrow> 'f option \<Rightarrow> ('w, 'd list) call" where
  "retrieve self query k flt =
     similarity_search (vector_store self) query (k_or_top_k k (top_k self)) flt"

text \<open>\<open>sep.join(parts)\<close>.\<close>

fun join :: "string \<Rightarrow> string list \<Rightarrow> string" where
  "join sep [] = []"
| "join sep [x] = x"
| "join sep (x # y # ys) = x @ sep @ join sep (y # ys)"

text \<open>Lines 67-71: the loop over \<open>enumerate(retrieved_docs, 1)\<close>, from the index \<open>i\<close> on.\<close>

fun context_parts :: "nat \<Rightarrow> 'a RetrievedDocument_scheme list \<Rightarrow> string list" where
  "context_parts i [] = []"
| "context_parts i (doc # docs) =
     [''[Document '' @ show_nat i @ '']'', document doc, ''''] @ context_parts (Suc i) docs"

text \<open>Lines 54-73.\<close>

definition format_context :: "'a RetrievedDocument_scheme list \<Rightarrow> string" where
  "format_context retrieved_docs =
     (if retrieved_docs = [] then '''' else join [CHR 0x0A] (context_parts 1 retrieved_docs))"

text \<open>The format of claim C8, in the words of the specification: the blocks
  \<open>"[Document i]\n<document text>\n"\<close>, numbered from \<open>i\<close>, with one newline between
  two blocks.\<close>

definition context_block :: "nat \<Rightarrow> 'a RetrievedDocument_scheme \<Rightarrow> string" where
  "context_block i doc = ''[Document '' @ show_nat i @ '']'' @ [CHR 0x0A] @ document doc @ [CHR 0x0A]"

fun context_blocks :: "nat \<Rightarrow> 'a RetrievedDocument_scheme list \<Rightarrow> string" where
  "context_blocks i [] = []"
| "context_blocks i [doc] = context_block i doc"
| "context_blocks i (doc # doc' # docs) =
     context_block i doc @ [CHR 0x0A] @ context_blocks (Suc i) (doc' # docs)"

section \<open>rag/generator.py\<close>

text \<open>Values of the result dict of \<open>Generator.generate\<close> and \<open>RAGPipeline.query\<close>.\<close>

datatype 'd rag_value =
    VNone
  | VStr string
  | VInt int
  | VDict "(string \<times> 'd rag_value) list"
  | VDocs "'d list"

text \<open>The completion object the client returns: the \<open>message.content\<close> of each choice
  (which may be \<open>None\<close>) and the token counts of \<open>usage\<close> (which may be \<open>None\<close>).\<close>

record usage_counts =
  prompt_tokens :: int
  completion_tokens :: int
  total_tokens :: int

record completion =
  choices :: "string option list"
  usage :: "usage_counts option"

text \<open>\<open>Generator\<close>: \<open>client_create\<close> is \<open>self.client.chat.completions.create\<close> with its
  arguments \<open>model\<close>, \<open>messages\<close> (role and content of each) and \<open>temperature\<close>; the
  temperature is an opaque value.\<close>

record ('w, 't) Generator =
  client_create :: "string \<Rightarrow> (string \<times> string) list \<Rightarrow> 't \<Rightarrow> ('w, completion) call"
  model :: string
  temperature :: 't

text \<open>Lines 46-50.\<close>

definition default_system_prompt :: string where
  "default_system_prompt =
     ''You are a helpful assistant that answers questions based on the provided context. '' @
     ''If the context doesn'' @ [quote] @ ''t contain relevant information, say so. '' @
     ''Always cite which document(s) you used to answer.''"

text \<open>Lines 52-57.\<close>

definition user_message :: "string \<Rightarrow> string \<Rightarrow> string" where
  "user_message query context =
     ''Context:'' @ [CHR 0x0A] @ context @ [CHR 0x0A, CHR 0x0A] @
     ''Question: '' @ query @ [CHR 0x0A, CHR 0x0A] @
     ''Please answer the question based on the context provided above.''"

text \<open>Lines 62-65.\<close>

definition chat_messages :: "string option \<Rightarrow> string \<Rightarrow> string \<Rightarrow> (string \<times> string) list" where
  "chat_messages system_prompt query context =
     [(''system'', case system_prompt of None \<Rightarrow> default_system_prompt | Some s \<Rightarrow> s),
      (''user'', user_message query context)]"

text \<open>Lines 79-83: the dict returned from the \<open>except\<close> branch.\<close>

definition generation_failure :: "string \<Rightarrow> (string \<rightharpoonup> 'd rag_value)" where
  "generation_failure msg = [''answer'' \<mapsto> VNone, ''error'' \<mapsto> VStr msg]"

text \<open>
  Lines 28-83. Inside the \<open>try\<close>, the call itself, \<open>choices[0]\<close> on an empty list and an
  attribute of a missing \<open>usage\<close> can raise; each ends in the \<open>except\<close> branch.
\<close>

definition generate ::
  "('w, 't) Generator \<Rightarrow> string \<Rightarrow> string \<Rightarrow> string option \<Rightarrow>
     'w \<Rightarrow> (string \<rightharpoonup> 'd rag_value) \<times> 'w" where
  "generate self query context system_prompt w =
     (case client_create self (model self) (chat_messages system_prompt query context)
             (temperature self) w of
        (Inl msg, w') \<Rightarrow> (generation_failure msg, w')
      | (Inr response, w') \<Rightarrow>
          (case choices response of
             [] \<Rightarrow> (generation_failure ''list index out of range'', w')
           | content # _ \<Rightarrow>
               (case usage response of
                  None \<Rightarrow>
                    (generation_failure
                       ([quote] @ ''NoneType'' @ [quote] @ '' object has no attribute '' @
                        [quote] @ ''prompt_tokens'' @ [quote]), w')
                | Some u \<Rightarrow>
                    ([''answer'' \<mapsto> (case content of None \<Rightarrow> VNone | Some a \<Rightarrow> VStr a),
                      ''model'' \<mapsto> VStr (model self),
                      ''usage'' \<mapsto> VDict [(''prompt_tokens'', VInt (prompt_tokens u)),
                                          (''completion_tokens'', VInt (completion_tokens u)),
                                          (''total_tokens'', VInt (total_tokens u))]], w'))))"

section \<open>rag/pipeline.py\<close>

text \<open>\<open>RAGPipeline\<close>, as far as \<open>query\<close> uses it: its retriever and its generator.\<close>

record ('w, 'd, 'f, 't) RAGPipeline =
  retriever :: "('w, 'd, 'f) Retriever"
  generator :: "('w, 't) Generator"

text \<open>Lines 34-62. An exception of the retrieval is not caught: it leaves \<open>query\<close>.\<close>

definition RAGPipeline_query ::
  "('w, 'a RetrievedDocument_scheme, 'f, 't) RAGPipeline \<Rightarrow> string \<Rightarrow> int option \<Rightarrow> 'f option \<Rightarrow>
     string option \<Rightarrow> ('w, string \<rightharpoonup> 'a RetrievedDocument_scheme rag_value) call" where
  "RAGPipeline_query self query k flt system_prompt w =
     (case retrieve (retriever self) query k flt w of
        (Inl msg, w1) \<Rightarrow> (Inl msg, w1)
      | (Inr retrieved_docs, w1) \<Rightarrow>
          (let context = format_context retrieved_docs;
               (res, w2) = generate (generator self) query context system_prompt w1
           in (Inr (res(''retrieved_documents'' \<mapsto> VDocs retrieved_docs,
                        ''num_documents'' \<mapsto> VInt (int (length retrieved_docs)))), w2)))"

section \<open>Test doubles for the collaborators\<close>

text \<open>A vector store that answers with \<open>k\<close> copies of the query, so that the \<open>k\<close> it was
  given can be read off its answer; an LLM client that always raises; and a pipeline made
  of the two. The outside world is trivial here.\<close>

definition counting_store :: "(unit, RetrievedDocument, unit) VectorStore" where
  "counting_store =
     \<lparr>similarity_search = (\<lambda>query k flt w. (Inr (replicate (nat k) \<lparr>document = query\<rparr>), w))\<rparr>"

definition failing_client :: "string \<Rightarrow> (string \<times> string) list \<Rightarrow> unit \<Rightarrow> (unit, completion) call" where
  "failing_client model_name messages temp w = (Inl ''quota exceeded'', w)"

definition example_pipeline :: "(unit, RetrievedDocument, unit, unit) RAGPipeline" where
  "example_pipeline =
     \<lparr>retriever = \<lparr>vector_store = counting_store, top_k = 2\<rparr>,
      generator = \<lparr>client_create = failing_client, model = ''gpt-4'', temperature = ()\<rparr>\<rparr>"

section \<open>Facts about the string operations and the chunking loop\<close>

lemma rfind_down_range:
  "rfind_down s c a b = - 1 \<or> (int a \<le> rfind_down s c a b \<and> rfind_down s c a b < int b)"
  by (induction b) auto

lemma rfind_down_hit:
  "0 \<le> rfind_down s c a b \<Longrightarrow> s ! nat (rfind_down s c a b) = c"
  by (induction b) (auto split: if_splits)

lemma rfind_down_max:
  "a \<le> p \<Longrightarrow> p < b \<Longrightarrow> s ! p = c \<Longrightarrow> int p \<le> rfind_down s c a b"
proof (induction b)
  case 0
  then show ?case by simp
next
  case (Suc b)
  then show ?case by (cases "p = b") auto
qed

lemma adjust_index_le: "adjust_index n i \<le> n"
  unfolding adjust_index_def by (cases "i < 0") auto

lemma adjust_index_nonneg: "0 \<le> i \<Longrightarrow> int (adjust_index n i) \<le> i"
  by (simp add: adjust_index_def)

lemma adjust_index_exact: "0 \<le> i \<Longrightarrow> i \<le> int n \<Longrightarrow> adjust_index n i = nat i"
  by (simp add: adjust_index_def)

lemma adjust_index_neg: "i < 0 \<Longrightarrow> 0 < n \<Longrightarrow> adjust_index n i < n"
  by (auto simp: adjust_index_def)

lemma adjust_index_neg_ge: "i < 0 \<Longrightarrow> i + int n \<le> int (adjust_index n i)"
  by (simp add: adjust_index_def)

lemma rfind_range:
  "rfind s c i j = - 1 \<or>
   (int (adjust_index (length s) i) \<le> rfind s c i j \<and> rfind s c i j < int (adjust_index (length s) j))"
  unfolding rfind_def by (rule rfind_down_range)

lemma rfind_ge: "- 1 \<le> rfind s c i j"
  using rfind_range [of s c i j] by auto

lemma rfind_lt: "rfind s c i j < int (adjust_index (length s) j)"
  using rfind_range [of s c i j] by auto

lemma slice_end_alt:
  "slice_end self text start =
     (if start + chunk_size self < int (length text) \<and>
         start < split_point text start (start + chunk_size self)
      then split_point text start (start + chunk_size self) + 1
      else start + chunk_size self)"
  by (simp add: slice_end_def split_point_def Let_def)

lemma split_point_ge: "- 1 \<le> split_point text i j"
  unfolding split_point_def using rfind_ge [of "text" "CHR ''.''" i j] by simp

lemma split_point_lt: "split_point text i j < int (adjust_index (length text) j)"
  unfolding split_point_def by (simp add: rfind_lt)


lemma slice_end_le:
  assumes "0 \<le> start + chunk_size self"
  shows "slice_end self text start \<le> start + chunk_size self"
proof -
  have "split_point text start (start + chunk_size self) < start + chunk_size self"
    using split_point_lt [of "text" start "start + chunk_size self"]
      adjust_index_nonneg [OF assms, of "length text"] by linarith
  then show ?thesis by (simp add: slice_end_alt)
qed

lemma slice_end_nonneg:
  assumes "0 \<le> start + chunk_size self"
  shows "0 \<le> slice_end self text start"
  using assms split_point_ge [of "text" start "start + chunk_size self"]
  by (simp add: slice_end_alt)

lemma slice_end_lt_length:
  assumes "start + chunk_size self < int (length text)" "text \<noteq> []"
  shows "slice_end self text start < int (length text)"
proof (cases "0 \<le> start + chunk_size self")
  case True
  from slice_end_le [OF True, of "text"] assms show ?thesis by linarith
next
  case False
  then have neg: "start + chunk_size self < 0" by simp
  from assms(2) have "0 < length text" by simp
  from adjust_index_neg [OF neg this]
  have "split_point text start (start + chunk_size self) + 1 < int (length text)"
    using split_point_lt [of "text" start "start + chunk_size self"] by linarith
  with assms show ?thesis by (simp add: slice_end_alt)
qed



lemmas chunk_loop_induct = chunk_loop.raw_induct [rotated, consumes 1, case_names step]

lemma chunk_loop_slices:
  "chunk_loop self text meta chunks start = Some res \<Longrightarrow>
     \<exists>spans. slices_from self text start spans \<and> res = emit_all meta text chunks spans"
proof (induct rule: chunk_loop_induct)
  case (step loop self t meta chunks start res)
  show ?case
  proof (cases "start < int (length t)")
    case True
    with step(2) have "loop self t meta (emit meta t chunks start (slice_end self t start))
          (next_start self t (slice_end self t start)) = Some res" by simp
    from step(1)[OF this] obtain spans where
      s: "slices_from self t (next_start self t (slice_end self t start)) spans"
      and r: "res = emit_all meta t (emit meta t chunks start (slice_end self t start)) spans"
      by blast
    let ?sp = "(start, slice_end self t start) # spans"
    have "slices_from self t start ?sp \<and> res = emit_all meta t chunks ?sp"
      using True s r by simp
    then show ?thesis by blast
  next
    case False
    with step(2) have "res = chunks" by simp
    with False have "slices_from self t start [] \<and> res = emit_all meta t chunks []" by simp
    then show ?thesis by blast
  qed
qed

lemma slices_from_diverge:
  assumes step: "\<And>s. s < int (length text) \<Longrightarrow> J s \<Longrightarrow>
      J (next_start self text (slice_end self text s)) \<and>
      next_start self text (slice_end self text s) < int (length text)"
  shows "slices_from self text start spans \<Longrightarrow> J start \<Longrightarrow> start < int (length text) \<Longrightarrow> False"
proof (induction spans arbitrary: start)
  case Nil
  then show ?case by simp
next
  case (Cons se rest)
  have r: "slices_from self text (next_start self text (slice_end self text start)) rest"
    using Cons.prems(1) by (cases se) auto
  from step [OF Cons.prems(3) Cons.prems(2)] Cons.IH [OF r] show ?case by blast
qed

lemma chunk_loop_diverges:
  assumes "\<And>s. s < int (length text) \<Longrightarrow> J s \<Longrightarrow>
      J (next_start self text (slice_end self text s)) \<and>
      next_start self text (slice_end self text s) < int (length text)"
    and "J start" "start < int (length text)"
  shows "chunk_loop self text meta chunks start = None"
proof (cases "chunk_loop self text meta chunks start")
  case None
  then show ?thesis .
next
  case (Some res)
  from chunk_loop_slices [OF Some] obtain spans where "slices_from self text start spans" by blast
  from slices_from_diverge [of "text" J self start spans, OF assms(1) this assms(2,3)]
  show ?thesis by simp
qed


lemma overlap_ge_size_diverges:
  assumes "1 \<le> chunk_size self" "chunk_size self \<le> chunk_overlap self"
    and "chunk_size self < int (length text)"
  shows "chunk_text self text meta = None"
proof -
  from assms have ne: "text \<noteq> []" by auto
  have "chunk_loop self text meta [] 0 = None"
  proof (rule chunk_loop_diverges [where J = "\<lambda>s. s + chunk_size self < int (length text)"])
    fix s
    assume "s < int (length text)" and j: "s + chunk_size self < int (length text)"
    from slice_end_lt_length [OF j ne] have lt: "slice_end self text s < int (length text)" .
    with assms show "next_start self text (slice_end self text s) + chunk_size self < int (length text)
        \<and> next_start self text (slice_end self text s) < int (length text)"
      by (simp add: next_start_def)
  next
    from assms show "0 + chunk_size self < int (length text)" by simp
  next
    from ne show "0 < int (length text)" by simp
  qed
  with ne show ?thesis by (simp add: chunk_text_def)
qed

lemma py_slice_whole: "int (length s) \<le> j \<Longrightarrow> py_slice s 0 j = s"
  by (simp add: py_slice_def adjust_index_def Let_def)

lemma chunk_text_short_text:
  assumes "text \<noteq> []" "int (length text) \<le> chunk_size self"
  shows "chunk_text self text meta =
     Some (if strip text = [] then [] else [new_chunk meta (strip text) 0 (chunk_size self) 0])"
proof -
  have e: "slice_end self text 0 = chunk_size self"
    using assms by (simp add: slice_end_def Let_def)
  have n: "next_start self text (chunk_size self) = chunk_size self"
    using assms by (simp add: next_start_def)
  have "chunk_loop self text meta [] 0 =
      chunk_loop self text meta (emit meta text [] 0 (chunk_size self)) (chunk_size self)"
    using assms by (subst chunk_loop.simps) (simp add: e n)
  also have "\<dots> = Some (emit meta text [] 0 (chunk_size self))"
    using assms by (subst chunk_loop.simps) simp
  finally show ?thesis
    using assms by (simp add: chunk_text_def emit_def py_slice_whole Let_def)
qed

lemma emit_all_fields:
  "map chunk_fields (emit_all meta text chunks spans) =
     map chunk_fields chunks @ map (slice_fields text) (filter (nonblank text) spans)"
proof (induction spans arbitrary: chunks)
  case Nil
  then show ?case by simp
next
  case (Cons se rest)
  then show ?case
    by (simp add: emit_def new_chunk_def chunk_fields_def slice_fields_def nonblank_def Let_def)
qed

lemma slices_from_props:
  assumes step: "\<And>s. s < int (length text) \<Longrightarrow> J s \<Longrightarrow>
      next_start self text (slice_end self text s) < int (length text) \<Longrightarrow>
      J (next_start self text (slice_end self text s))"
  shows "slices_from self text start spans \<Longrightarrow> J start \<Longrightarrow>
     \<forall>se\<in>set spans. J (fst se) \<and> fst se < int (length text) \<and> snd se = slice_end self text (fst se)"
proof (induction spans arbitrary: start)
  case Nil
  then show ?case by simp
next
  case (Cons se rest)
  from Cons.prems(1) have a: "start < int (length text)" "fst se = start"
    "snd se = slice_end self text start"
    "slices_from self text (next_start self text (slice_end self text start)) rest"
    by (cases se, auto)+
  have "\<forall>x\<in>set rest. J (fst x) \<and> fst x < int (length text) \<and> snd x = slice_end self text (fst x)"
  proof (cases rest)
    case Nil
    then show ?thesis by simp
  next
    case (Cons x xs)
    with a(4) have "next_start self text (slice_end self text start) < int (length text)" by simp
    from step [OF a(1) Cons.prems(2) this] Cons.IH [OF a(4)] show ?thesis by blast
  qed
  with a Cons.prems(2) show ?case by simp
qed





lemma rfind_down_empty: "b \<le> a \<Longrightarrow> rfind_down s c a b = - 1"
  using rfind_down_range [of s c a b] by auto

lemma negative_start_slice_empty:
  assumes "s < 0" "chunk_size self < int (length text)" "1 \<le> s + chunk_size self"
  shows "py_slice text s (slice_end self text s) = []"
proof -
  let ?n = "length text"
  let ?e = "s + chunk_size self"
  have a: "adjust_index ?n s = nat (s + int ?n)" using assms by (simp add: adjust_index_def)
  have b: "adjust_index ?n ?e = nat ?e" using assms by (simp add: adjust_index_def)
  have le: "nat ?e \<le> nat (s + int ?n)" using assms by simp
  have r: "rfind text c s ?e = - 1" for c
    unfolding rfind_def a b by (rule rfind_down_empty [OF le])
  have sp: "split_point text s ?e = - 1" by (simp add: split_point_def r)
  have e: "slice_end self text s = (if s < - 1 then 0 else ?e)"
    using assms by (simp add: slice_end_alt sp)
  have "adjust_index ?n (slice_end self text s) \<le> nat (s + int ?n)"
    using assms by (auto simp: e adjust_index_def)
  then show ?thesis by (simp add: py_slice_def Let_def a)
qed

lemma strip_Nil: "strip [] = []"
  by (simp add: strip_def)

lemma progress_invariant:
  assumes "chunk_overlap self < chunk_size self"
    and "s < int (length text)"
    and "(s = 0 \<or> chunk_size self < int (length text)) \<and> 1 \<le> s + chunk_size self"
    and "next_start self text (slice_end self text s) < int (length text)"
  shows "(next_start self text (slice_end self text s) = 0 \<or> chunk_size self < int (length text)) \<and>
         1 \<le> next_start self text (slice_end self text s) + chunk_size self"
proof -
  let ?e = "slice_end self text s"
  have lt: "?e < int (length text)"
    using assms(4) by (auto simp: next_start_def split: if_splits)
  then have n: "next_start self text ?e = ?e - chunk_overlap self" by (simp add: next_start_def)
  have nn: "0 \<le> ?e" using assms(3) by (intro slice_end_nonneg) simp
  have "chunk_size self < int (length text)"
  proof (cases "s = 0")
    case True
    with lt show ?thesis by (auto simp: slice_end_alt split: if_splits)
  next
    case False
    with assms(3) show ?thesis by simp
  qed
  with nn n assms(1) show ?thesis by simp
qed

lemma split_point_Max:
  assumes "0 \<le> s" "s \<le> e" "e \<le> int (length text)"
  shows "split_point text s e =
     (if delimiter_positions text s e = [] then - 1 else Max (set (delimiter_positions text s e)))"
proof -
  let ?D = "set (delimiter_positions text s e)"
  let ?m = "split_point text s e"
  have D: "?D = {p. s \<le> p \<and> p < e \<and> text ! nat p \<in> {CHR ''.'', CHR 0x0A, CHR '' ''}}"
    by (auto simp: delimiter_positions_def)
  have rf: "rfind text c s e = rfind_down text c (nat s) (nat e)" for c
    using assms by (simp add: rfind_def adjust_index_exact)
  have mem: "rfind text c s e = - 1 \<or> rfind text c s e \<in> ?D"
    if "c \<in> {CHR ''.'', CHR 0x0A, CHR '' ''}" for c
  proof (cases "rfind text c s e = - 1")
    case True
    then show ?thesis by simp
  next
    case False
    with rfind_down_range [of "text" c "nat s" "nat e"] assms
    have r: "s \<le> rfind text c s e" "rfind text c s e < e" by (auto simp: rf)
    with assms have "0 \<le> rfind_down text c (nat s) (nat e)" by (simp add: rf)
    from rfind_down_hit [OF this] have "text ! nat (rfind text c s e) = c" by (simp add: rf)
    with r that show ?thesis unfolding D by blast
  qed
  have ub: "p \<le> rfind text c s e" if "p \<in> ?D" "text ! nat p = c" for p c
  proof -
    from that assms have "nat s \<le> nat p" "nat p < nat e" "0 \<le> p" by (auto simp: D)
    from rfind_down_max [OF this(1,2) that(2)] this(3) show ?thesis by (simp add: rf)
  qed
  have upper: "p \<le> ?m" if "p \<in> ?D" for p
  proof -
    from that have "text ! nat p \<in> {CHR ''.'', CHR 0x0A, CHR '' ''}" by (simp add: D)
    then consider "text ! nat p = CHR ''.''" | "text ! nat p = CHR 0x0A" | "text ! nat p = CHR '' ''"
      by auto
    then show ?thesis
    proof cases
      case 1
      from ub [OF that 1] show ?thesis by (simp add: split_point_def)
    next
      case 2
      from ub [OF that 2] show ?thesis by (simp add: split_point_def)
    next
      case 3
      from ub [OF that 3] show ?thesis by (simp add: split_point_def)
    qed
  qed
  have inD: "?m = - 1 \<or> ?m \<in> ?D"
    using mem [of "CHR ''.''"] mem [of "CHR 0x0A"] mem [of "CHR '' ''"]
    unfolding split_point_def max_def by auto
  show ?thesis
  proof (cases "delimiter_positions text s e = []")
    case True
    with inD show ?thesis by simp
  next
    case False
    then obtain p where p: "p \<in> ?D" by (cases "delimiter_positions text s e") auto
    from upper [OF p] p assms have "0 \<le> ?m" by (auto simp: D)
    with inD have "?m \<in> ?D" by auto
    then have "Max ?D = ?m" using upper by (intro Max_eqI) auto
    with False show ?thesis by simp
  qed
qed

lemma slice_end_snapped:
  assumes "0 \<le> s" "0 < chunk_size self"
  shows "slice_end self text s = snapped_end text (chunk_size self) s"
proof (cases "s + chunk_size self < int (length text)")
  case True
  with assms split_point_Max [of s "s + chunk_size self" "text"]
  have "split_point text s (s + chunk_size self) =
     (if delimiter_positions text s (s + chunk_size self) = [] then - 1
      else Max (set (delimiter_positions text s (s + chunk_size self))))" by simp
  with True assms show ?thesis by (auto simp: slice_end_alt snapped_end_def Let_def)
next
  case False
  then show ?thesis by (simp add: slice_end_alt snapped_end_def Let_def)
qed

lemma emitted_start_nonneg:
  assumes sz: "0 < chunk_size self" and ne: "text \<noteq> []"
    and sl: "slices_from self text 0 spans" and se: "se \<in> set spans" and nb: "nonblank text se"
  shows "0 \<le> fst se"
proof (cases "chunk_overlap self < chunk_size self")
  case True
  let ?J = "\<lambda>s. (s = 0 \<or> chunk_size self < int (length text)) \<and> 1 \<le> s + chunk_size self"
  have "\<forall>x\<in>set spans. ?J (fst x) \<and> fst x < int (length text) \<and> snd x = slice_end self text (fst x)"
  proof (rule slices_from_props [where J = ?J and start = 0, OF _ sl])
    fix s
    assume "s < int (length text)" "?J s"
      "next_start self text (slice_end self text s) < int (length text)"
    from progress_invariant [OF True this]
    show "?J (next_start self text (slice_end self text s))" .
  next
    from sz show "?J 0" by simp
  qed
  with se have j: "?J (fst se)" and e: "snd se = slice_end self text (fst se)" by auto
  show ?thesis
  proof (rule ccontr)
    assume "\<not> 0 \<le> fst se"
    then have neg: "fst se < 0" by simp
    with j have "chunk_size self < int (length text)" "1 \<le> fst se + chunk_size self" by auto
    from negative_start_slice_empty [OF neg this] e nb show False
      by (simp add: nonblank_def strip_Nil)
  qed
next
  case False
  then have ov: "chunk_size self \<le> chunk_overlap self" by simp
  show ?thesis
  proof (cases "chunk_size self < int (length text)")
    case True
    have "False"
    proof (rule slices_from_diverge
        [where J = "\<lambda>s. s + chunk_size self < int (length text)" and start = 0, OF _ sl])
      fix s
      assume "s < int (length text)" and j: "s + chunk_size self < int (length text)"
      from slice_end_lt_length [OF j ne] have "slice_end self text s < int (length text)" .
      with ov sz show "next_start self text (slice_end self text s) + chunk_size self < int (length text)
          \<and> next_start self text (slice_end self text s) < int (length text)"
        by (simp add: next_start_def)
    next
      from True show "0 + chunk_size self < int (length text)" by simp
    next
      from ne show "0 < int (length text)" by simp
    qed
    then show ?thesis ..
  next
    case False
    from sl se obtain x xs where sp: "spans = x # xs" by (cases spans) auto
    with sl have x: "fst x = 0" "snd x = slice_end self text 0"
      and r: "slices_from self text (next_start self text (snd x)) xs" by (cases x, auto)+
    from False have "slice_end self text 0 = chunk_size self" by (simp add: slice_end_alt)
    with x False have "next_start self text (snd x) = chunk_size self" by (simp add: next_start_def)
    with r False have "xs = []" by (cases xs) auto
    with sp se x show ?thesis by simp
  qed
qed

lemma chunk_text_trace:
  assumes "chunk_text self text meta = Some chunks" "text \<noteq> []"
  shows "\<exists>spans. slices_from self text 0 spans \<and> chunks = emit_all meta text [] spans"
  using assms chunk_loop_slices [of self "text" meta "[]" 0 chunks] by (simp add: chunk_text_def)

lemma chunk_fields_emitted:
  assumes "chunks = emit_all meta text [] spans" "c \<in> set chunks"
  shows "\<exists>se\<in>set spans. nonblank text se \<and> chunk_fields c = slice_fields text se"
proof -
  from assms(2) have "chunk_fields c \<in> set (map chunk_fields chunks)" by simp
  also have "map chunk_fields chunks = map (slice_fields text) (filter (nonblank text) spans)"
    using emit_all_fields [of meta "text" "[]" spans] assms(1) by simp
  finally show ?thesis by auto
qed


section \<open>Claims about the chunker\<close>

text \<open>
  Claim C3 says that constructing a \<open>TextChunker\<close> with \<open>chunk_overlap >= chunk_size\<close>
  fails at construction time, so that such a chunker cannot be obtained and used. The
  constructor has no check: for every pair of parameters it returns a chunker holding
  exactly these two values. The chunker so obtained can be used whatever its
  \<open>chunk_overlap\<close> is: on a non-empty text no longer than \<open>chunk_size\<close>, \<open>chunk_text\<close>
  returns the stripped text as one chunk with the offsets \<open>0\<close> and \<open>chunk_size\<close>, or no
  chunk when the text is all whitespace.
\<close>

theorem TextChunker_init_accepts_every_configuration:
  "(\<exists>chunker. TextChunker_init sz ov = Inr chunker \<and>
      chunk_size chunker = sz \<and> chunk_overlap chunker = ov \<and>
      (text \<noteq> [] \<and> int (length text) \<le> sz \<longrightarrow>
         chunk_text chunker text meta =
           Some (if strip text = [] then [] else [new_chunk meta (strip text) 0 sz 0])))"
  using chunk_text_short_text [of "text" "\<lparr>chunk_size = sz, chunk_overlap = ov\<rparr>" meta]
  by (simp add: TextChunker_init_def)

theorem TextChunker_init_accepts_every_configuration_witness:
  "''ab'' \<noteq> [] \<and> int (length ''ab'') \<le> 2 \<and>
   (\<exists>chunker. TextChunker_init 2 2 = Inr chunker \<and>
      chunk_size chunker = 2 \<and> chunk_overlap chunker = 2 \<and>
      chunk_text chunker ''ab'' (None :: unit metadata option) = Some [new_chunk None ''ab'' 0 2 0])"
  using TextChunker_init_accepts_every_configuration [of 2 2 "''ab''" "None :: unit metadata option"]
  by (simp add: strip_def isspace_def)

text \<open>The claim as stated fails at \<open>TextChunker(chunk_size=2, chunk_overlap=5)\<close>: the
  overlap is not below the size, the constructor returns the chunker without an error, and
  \<open>chunk_text("ab")\<close> on it returns the chunk \<open>"ab"\<close>.\<close>

theorem TextChunker_init_fail_fast_counterexample:
  "(2::int) \<le> 5 \<and>
   TextChunker_init 2 5 = Inr \<lparr>chunk_size = 2, chunk_overlap = 5\<rparr> \<and>
   chunk_text \<lparr>chunk_size = 2, chunk_overlap = 5\<rparr> ''ab'' (None :: unit metadata option)
     = Some [new_chunk None ''ab'' 0 2 0]"
  using chunk_text_short_text
    [of "''ab''" "\<lparr>chunk_size = 2, chunk_overlap = 5\<rparr>" "None :: unit metadata option"]
  by (simp add: TextChunker_init_def strip_def isspace_def)

text \<open>
  Claim C4 says that \<open>chunk_text\<close> terminates for every text whenever
  \<open>0 <= chunk_overlap < chunk_size\<close>. With \<open>chunk_size = 4\<close>, \<open>chunk_overlap = 2\<close> and the
  text \<open>"a bcdefgh"\<close> the first slice is snapped to end at 2, right after the space, so the
  next start is \<open>2 - 2 = 0\<close> again: the loop repeats the same iteration forever.
\<close>

theorem chunk_text_never_returns:
  "chunk_text \<lparr>chunk_size = 4, chunk_overlap = 2\<rparr> ''a bcdefgh'' meta = None"
proof -
  let ?self = "\<lparr>chunk_size = 4, chunk_overlap = 2\<rparr>"
  have e: "slice_end ?self ''a bcdefgh'' 0 = 2"
    by (simp add: slice_end_def rfind_def adjust_index_def Let_def eval_nat_numeral)
  have "chunk_loop ?self ''a bcdefgh'' meta [] 0 = None"
    by (rule chunk_loop_diverges [where J = "\<lambda>s. s = 0"]) (simp_all add: e next_start_def)
  then show ?thesis by (simp add: chunk_text_def)
qed




text \<open>
  Claim C2: \<open>chunk_text\<close> returns the empty list for the empty text; and, for a chunk size
  of at least 1, every chunk that \<open>chunk_text\<close> returns starts at an index \<open>start\<close> of the
  text, records as \<open>chunk_end\<close> the end that the boundary rule gives for \<open>start\<close>
  (\<open>start + chunk_size\<close>, snapped to \<open>p + 1\<close> when that is before \<open>len(text)\<close> and the
  maximum index \<open>p\<close> of a \<open>'.'\<close>, newline or space in \<open>[start, start + chunk_size)\<close>
  exists and is above \<open>start\<close>), and holds the stripped slice between the two.
\<close>

theorem chunk_text_boundary_selection:
  assumes "0 < chunk_size self"
  shows "chunk_text self [] meta = Some [] \<and>
    (chunk_text self text meta = Some chunks \<longrightarrow>
       (\<forall>c\<in>set chunks. \<exists>start.
          0 \<le> start \<and> start < int (length text) \<and>
          metadata c ''chunk_start'' = Some (IntV start) \<and>
          metadata c ''chunk_end'' = Some (IntV (snapped_end text (chunk_size self) start)) \<and>
          ctext c = strip (py_slice text start (snapped_end text (chunk_size self) start))))"
proof (intro conjI impI ballI)
  show "chunk_text self [] meta = Some []" by (simp add: chunk_text_def)
next
  fix c
  assume r: "chunk_text self text meta = Some chunks" and c: "c \<in> set chunks"
  then have ne: "text \<noteq> []" by (auto simp: chunk_text_def)
  from chunk_text_trace [OF r ne] obtain spans where
    sl: "slices_from self text 0 spans" and ch: "chunks = emit_all meta text [] spans" by blast
  from chunk_fields_emitted [OF ch c] obtain se where
    se: "se \<in> set spans" "nonblank text se" "chunk_fields c = slice_fields text se" by blast
  from emitted_start_nonneg [OF assms ne sl se(1,2)] have nn: "0 \<le> fst se" .
  have "\<forall>x\<in>set spans. True \<and> fst x < int (length text) \<and> snd x = slice_end self text (fst x)"
    by (rule slices_from_props [where J = "\<lambda>s. True", OF _ sl]) simp_all
  with se(1) have lt: "fst se < int (length text)" and e: "snd se = slice_end self text (fst se)"
    by auto
  from e slice_end_snapped [OF nn assms, of "text"]
  have e': "snd se = snapped_end text (chunk_size self) (fst se)" by simp
  from se(3) e' nn lt
  show "\<exists>start. 0 \<le> start \<and> start < int (length text) \<and>
          metadata c ''chunk_start'' = Some (IntV start) \<and>
          metadata c ''chunk_end'' = Some (IntV (snapped_end text (chunk_size self) start)) \<and>
          ctext c = strip (py_slice text start (snapped_end text (chunk_size self) start))"
    by (intro exI [of _ "fst se"]) (simp add: chunk_fields_def slice_fields_def)
qed

theorem chunk_text_boundary_selection_witness:
  "(0::int) < chunk_size \<lparr>chunk_size = 5, chunk_overlap = 1\<rparr> \<and>
   chunk_text \<lparr>chunk_size = 5, chunk_overlap = 1\<rparr> [] (None :: unit metadata option) = Some [] \<and>
   chunk_text \<lparr>chunk_size = 5, chunk_overlap = 1\<rparr> ''ab cdefghij'' (None :: unit metadata option)
     = Some [new_chunk None ''ab'' 0 3 0, new_chunk None ''cdef'' 2 7 1,
             new_chunk None ''fghij'' 6 11 2] \<and>
   snapped_end ''ab cdefghij'' 5 0 = 3 \<and> snapped_end ''ab cdefghij'' 5 2 = 7 \<and>
   snapped_end ''ab cdefghij'' 5 6 = 11"
proof -
  have h: "(0::int) < chunk_size \<lparr>chunk_size = 5, chunk_overlap = 1\<rparr>" by simp
  have r: "chunk_text \<lparr>chunk_size = 5, chunk_overlap = 1\<rparr> ''ab cdefghij'' (None :: unit metadata option)
     = Some [new_chunk None ''ab'' 0 3 0, new_chunk None ''cdef'' 2 7 1,
             new_chunk None ''fghij'' 6 11 2]"
    by (simp add: chunk_text_def chunk_loop.simps slice_end_def next_start_def emit_def rfind_def
        adjust_index_def py_slice_def strip_def isspace_def Let_def eval_nat_numeral)
  have s: "snapped_end ''ab cdefghij'' 5 0 = 3 \<and> snapped_end ''ab cdefghij'' 5 2 = 7 \<and>
     snapped_end ''ab cdefghij'' 5 6 = 11"
    by code_simp
  from chunk_text_boundary_selection [OF h, of "None :: unit metadata option"] h r s
  show ?thesis by simp
qed

section \<open>Claims about the MCP dispatch and the response envelope\<close>

lemma handle_mcp_request_invalid:
  "\<not> truthy data \<or> (\<exists>d. data = JObj d \<and> d ''type'' \<noteq> Some (JStr ''request'')) \<Longrightarrow>
   handle_mcp_request hs data = invalid_request"
  by (auto simp add: handle_mcp_request_def dict_get_def split: option.splits json.splits)

lemma handle_mcp_request_named_method:
  assumes "d ''type'' = Some (JStr ''request'')" and "d ''method'' = Some (JStr name)"
  shows "handle_mcp_request hs (JObj d) =
     (case hs name of
        None \<Rightarrow>
          ([''type'' \<mapsto> JStr ''response'', ''id'' \<mapsto> dict_get d ''id'',
            ''error'' \<mapsto> JStr (''Method '' @ [quote] @ name @ [quote] @ '' not found'')], 404)
      | Some h \<Rightarrow>
          (case h (case d ''params'' of None \<Rightarrow> JObj Map.empty | Some p \<Rightarrow> p) of
             Inl msg \<Rightarrow>
               ([''type'' \<mapsto> JStr ''response'', ''id'' \<mapsto> dict_get d ''id'',
                 ''error'' \<mapsto> JStr (''Error executing method: '' @ msg)], 500)
           | Inr res \<Rightarrow>
               ([''type'' \<mapsto> JStr ''response'', ''id'' \<mapsto> dict_get d ''id'',
                 ''result'' \<mapsto> res], 200)))"
proof -
  from assms(1) have ne: "d \<noteq> Map.empty" by auto
  show ?thesis
    using assms ne
    by (simp add: handle_mcp_request_def dict_get_def lookup_handler_def to_dict_def Let_def
        split: option.splits sum.splits)
qed

text \<open>
  Claim C5 maps every decoded body to one of four responses: 400 when the payload is missing
  or its type is not \<open>"request"\<close>, 404 for an unknown method, 500 with
  \<open>"Error executing method: ..."\<close> when the handler raises, 200 otherwise. Line 38 tests
  \<open>not data or data.get('type') != 'request'\<close>, which rejects a falsy body and a dict of
  another type with 400, but calls \<open>get\<close> on any other truthy body: for the JSON body
  \<open>[1]\<close> the \<open>AttributeError\<close> reaches the outer \<open>except\<close>, and the answer is the status 500
  with the exception's message, not the 400 of an invalid request.
\<close>

theorem handle_mcp_request_list_body:
  "handle_mcp_request hs (JArr [JNum 1]) =
     ([''type'' \<mapsto> JStr ''error'',
       ''error'' \<mapsto> JStr ([quote] @ ''list'' @ [quote] @ '' object has no attribute '' @
                               [quote] @ ''get'' @ [quote])],
      500) \<and>
   handle_mcp_request hs (JArr [JNum 1]) \<noteq> invalid_request"
  by (simp add: handle_mcp_request_def processing_error_def invalid_request_def)

text \<open>
  Claim C6: for every \<open>MCPResponse\<close>, whatever its \<open>result\<close>, \<open>error\<close> and \<open>id\<close>, the dict
  produced by \<open>to_dict\<close> contains exactly one of the keys \<open>'result'\<close> and \<open>'error'\<close>.
\<close>

theorem to_dict_exactly_one_of_result_and_error:
  "(''result'' \<in> dom (to_dict r)) \<noteq> (''error'' \<in> dom (to_dict r))"
  by (simp add: to_dict_def Let_def)

text \<open>
  Claim C7 says that \<open>to_dict\<close> followed by \<open>from_dict\<close> gives back the \<open>id\<close>, and the
  \<open>result\<close> of a response without error or the \<open>error\<close> of a response with one. \<open>to_dict\<close>
  tests \<open>if self.error\<close>, so an error that is present but falsy (the empty string) is encoded
  as a success and comes back as \<open>None\<close>. The round trip holds for the \<open>id\<close> always, for the
  \<open>result\<close> when \<open>error\<close> is \<open>None\<close>, and for the \<open>error\<close> when it is truthy (a non-empty
  string).
\<close>

theorem MCPResponse_round_trip:
  "ident (from_dict (to_dict r)) = ident r \<and>
   (error r = JNull \<longrightarrow>
      result (from_dict (to_dict r)) = result r \<and> error (from_dict (to_dict r)) = JNull) \<and>
   (truthy (error r) \<longrightarrow> error (from_dict (to_dict r)) = error r)"
  by (simp add: to_dict_def from_dict_def dict_get_def Let_def)

theorem MCPResponse_round_trip_witness:
  "error \<lparr>result = JNum 7, error = JNull, ident = JStr ''a''\<rparr> = JNull \<and>
   from_dict (to_dict \<lparr>result = JNum 7, error = JNull, ident = JStr ''a''\<rparr>)
     = \<lparr>result = JNum 7, error = JNull, ident = JStr ''a''\<rparr> \<and>
   truthy (error \<lparr>result = JNull, error = JStr ''boom'', ident = JStr ''b''\<rparr>) \<and>
   from_dict (to_dict \<lparr>result = JNull, error = JStr ''boom'', ident = JStr ''b''\<rparr>)
     = \<lparr>result = JNull, error = JStr ''boom'', ident = JStr ''b''\<rparr>"
  using MCPResponse_round_trip [of "\<lparr>result = JNum 7, error = JNull, ident = JStr ''a''\<rparr>"]
    MCPResponse_round_trip [of "\<lparr>result = JNull, error = JStr ''boom'', ident = JStr ''b''\<rparr>"]
  by (simp add: from_dict_def to_dict_def dict_get_def)

text \<open>The claim as stated fails at \<open>MCPResponse(error="", id="1")\<close>: the error is present
  (not \<open>None\<close>), and after the round trip it is \<open>None\<close>.\<close>

theorem MCPResponse_round_trip_counterexample:
  "error \<lparr>result = JNull, error = JStr '''', ident = JStr ''1''\<rparr> \<noteq> JNull \<and>
   error (from_dict (to_dict \<lparr>result = JNull, error = JStr '''', ident = JStr ''1''\<rparr>)) = JNull \<and>
   to_dict \<lparr>result = JNull, error = JStr '''', ident = JStr ''1''\<rparr> ''error'' = None"
  by (simp add: to_dict_def from_dict_def dict_get_def Let_def)

section \<open>Claims about the retriever and the pipeline\<close>

lemma join_context_parts:
  "docs \<noteq> [] \<Longrightarrow> join [CHR 0x0A] (context_parts i docs) = context_blocks i docs"
proof (induction i docs rule: context_blocks.induct)
  case (1 i)
  then show ?case by simp
next
  case (2 i doc)
  then show ?case by (simp add: context_block_def)
next
  case (3 i doc doc' docs)
  then show ?case by (simp add: context_block_def)
qed

lemma show_nat_1: "show_nat (Suc 0) = ''1''"
  by code_simp

lemma show_nat_2: "show_nat (Suc (Suc 0)) = ''2''"
  by code_simp

text \<open>
  Claim C8: \<open>format_context\<close> returns \<open>""\<close> for an empty list; for a non-empty list it
  returns the blocks \<open>"[Document i]\n<document text>\n"\<close>, numbered from 1, in the order of
  the input, with one newline between two blocks; and for the two documents \<open>"A"\<close> and
  \<open>"B"\<close> it returns exactly \<open>"[Document 1]\nA\n\n[Document 2]\nB\n"\<close>.
\<close>

theorem format_context_blocks:
  "format_context ([] :: 'a RetrievedDocument_scheme list) = '''' \<and>
   ((docs :: 'a RetrievedDocument_scheme list) \<noteq> [] \<longrightarrow> format_context docs = context_blocks 1 docs) \<and>
   format_context [\<lparr>document = ''A''\<rparr>, \<lparr>document = ''B''\<rparr>] =
     ''[Document 1]'' @ [CHR 0x0A] @ ''A'' @ [CHR 0x0A, CHR 0x0A] @
     ''[Document 2]'' @ [CHR 0x0A] @ ''B'' @ [CHR 0x0A]"
  by (simp add: format_context_def join_context_parts context_block_def show_nat_1 show_nat_2)

theorem format_context_blocks_witness:
  "[\<lparr>document = ''x y''\<rparr>] \<noteq> [] \<and>
   format_context [\<lparr>document = ''x y''\<rparr>] = ''[Document 1]'' @ [CHR 0x0A] @ ''x y'' @ [CHR 0x0A]"
  using format_context_blocks [of "[\<lparr>document = ''x y''\<rparr>]"]
  by (simp add: context_block_def show_nat_1)

lemma generate_failure:
  "client_create g (model g) (chat_messages sp query context) (temperature g) w = (Inl msg, w') \<Longrightarrow>
   generate g query context sp w = (generation_failure msg, w')"
  by (simp add: generate_def)

text \<open>
  Claim C9: whenever the retrieval succeeds, \<open>RAGPipeline.query\<close> returns a result, and the
  result is the dict of \<open>Generator.generate\<close> with \<open>retrieved_documents\<close> (the retrieved
  list) and \<open>num_documents\<close> (its length) added, whether or not the generation succeeded.
  When the call to the generation backend raises, the result has \<open>answer = None\<close> and the
  exception's message under \<open>error\<close>, and the outside world is the one that this single
  call left: the generator does not raise, and the pipeline neither retries nor changes the
  failure.
\<close>

theorem query_attaches_retrieved_documents:
  fixes docs :: "'a RetrievedDocument_scheme list"
  assumes "retrieve (retriever p) query k flt w = (Inr docs, w1)"
  shows "\<exists>res gen w2.
      RAGPipeline_query p query k flt sp w = (Inr res, w2) \<and>
      generate (generator p) query (format_context docs) sp w1 = (gen, w2) \<and>
      res = gen(''retrieved_documents'' \<mapsto> VDocs docs,
                ''num_documents'' \<mapsto> VInt (int (length docs))) \<and>
      res ''retrieved_documents'' = Some (VDocs docs) \<and>
      res ''num_documents'' = Some (VInt (int (length docs))) \<and>
      (\<forall>msg w'. client_create (generator p) (model (generator p))
                   (chat_messages sp query (format_context docs)) (temperature (generator p)) w1
                 = (Inl msg, w') \<longrightarrow>
         w2 = w' \<and> res ''answer'' = Some VNone \<and> res ''error'' = Some (VStr msg))"
proof -
  obtain gen :: "string \<rightharpoonup> 'a RetrievedDocument_scheme rag_value" and w2
    where g: "generate (generator p) query (format_context docs) sp w1 = (gen, w2)"
    by (cases "generate (generator p) query (format_context docs) sp w1
                 :: (string \<rightharpoonup> 'a RetrievedDocument_scheme rag_value) \<times> _") auto
  let ?res = "gen(''retrieved_documents'' \<mapsto> VDocs docs,
                  ''num_documents'' \<mapsto> VInt (int (length docs)))"
  have q: "RAGPipeline_query p query k flt sp w = (Inr ?res, w2)"
    using assms g by (simp add: RAGPipeline_query_def Let_def)
  have f: "\<forall>msg w'. client_create (generator p) (model (generator p))
                   (chat_messages sp query (format_context docs)) (temperature (generator p)) w1
                 = (Inl msg, w') \<longrightarrow>
         w2 = w' \<and> ?res ''answer'' = Some VNone \<and> ?res ''error'' = Some (VStr msg)"
  proof (intro allI impI)
    fix msg w'
    assume "client_create (generator p) (model (generator p))
                   (chat_messages sp query (format_context docs)) (temperature (generator p)) w1
                 = (Inl msg, w')"
    from generate_failure [OF this]
    have "generate (generator p) query (format_context docs) sp w1
            = (generation_failure msg :: string \<rightharpoonup> 'a RetrievedDocument_scheme rag_value, w')" .
    with g have "gen = generation_failure msg" "w2 = w'" by simp_all
    then show "w2 = w' \<and> ?res ''answer'' = Some VNone \<and> ?res ''error'' = Some (VStr msg)"
      by (simp add: generation_failure_def)
  qed
  have a: "?res ''retrieved_documents'' = Some (VDocs docs)" by simp
  have b: "?res ''num_documents'' = Some (VInt (int (length docs)))" by simp
  from q g a b f show ?thesis by blast
qed

theorem query_attaches_retrieved_documents_witness:
  "retrieve (retriever example_pipeline) ''q'' None None ()
     = (Inr [\<lparr>document = ''q''\<rparr>, \<lparr>document = ''q''\<rparr>], ()) \<and>
   (\<exists>res. RAGPipeline_query example_pipeline ''q'' None None None () = (Inr res, ()) \<and>
      res ''retrieved_documents'' = Some (VDocs [\<lparr>document = ''q''\<rparr>, \<lparr>document = ''q''\<rparr>]) \<and>
      res ''num_documents'' = Some (VInt 2) \<and>
      res ''answer'' = Some VNone \<and> res ''error'' = Some (VStr ''quota exceeded''))"
proof -
  let ?docs = "[\<lparr>document = ''q''\<rparr>, \<lparr>document = ''q''\<rparr>]"
  have h: "retrieve (retriever example_pipeline) ''q'' None None () = (Inr ?docs, ())"
    by (simp add: example_pipeline_def retrieve_def k_or_top_k_def counting_store_def
        eval_nat_numeral)
  have c: "client_create (generator example_pipeline) (model (generator example_pipeline))
             (chat_messages None ''q'' (format_context ?docs))
             (temperature (generator example_pipeline)) () = (Inl ''quota exceeded'', ())"
    by (simp add: example_pipeline_def failing_client_def)
  from query_attaches_retrieved_documents [OF h, of None] c h show ?thesis
    by fastforce
qed

text \<open>
  Claim C10 says that \<open>retrieve\<close> passes \<open>k\<close> on unmodified whenever it is supplied.
  Line 44 is \<open>k = k or self.top_k\<close>: a supplied \<open>k = 0\<close> is falsy and is replaced by
  \<open>top_k\<close>. So \<open>k\<close> is passed on unmodified when it is supplied and not 0, \<open>top_k\<close> is used
  when \<open>k\<close> is \<open>None\<close> or 0, and the filter is passed on verbatim in every case; and the
  documents of \<open>RAGPipeline.query\<close> are those of \<open>retrieve\<close> with the same \<open>k\<close> and filter.
\<close>

theorem retrieve_passes_k_and_filter:
  "(k \<noteq> Some 0 \<longrightarrow>
      retrieve self query k flt =
        similarity_search (vector_store self) query
          (case k of None \<Rightarrow> top_k self | Some n \<Rightarrow> n) flt) \<and>
   retrieve self query (Some 0) flt = similarity_search (vector_store self) query (top_k self) flt \<and>
   (case retrieve (retriever p) query k flt w of
      (Inl msg, w1) \<Rightarrow> RAGPipeline_query p query k flt sp w = (Inl msg, w1)
    | (Inr docs, w1) \<Rightarrow>
        (\<exists>res w2. RAGPipeline_query p query k flt sp w = (Inr res, w2) \<and>
           res ''retrieved_documents'' = Some (VDocs docs)))"
  by (auto simp add: retrieve_def k_or_top_k_def RAGPipeline_query_def Let_def
      split: option.splits prod.splits sum.splits)

theorem retrieve_passes_k_and_filter_witness:
  "Some (3::int) \<noteq> Some 0 \<and>
   retrieve \<lparr>vector_store = counting_store, top_k = 2\<rparr> ''q'' (Some 3) None ()
     = similarity_search counting_store ''q'' 3 None () \<and>
   retrieve \<lparr>vector_store = counting_store, top_k = 2\<rparr> ''q'' (Some 3) None ()
     = (Inr [\<lparr>document = ''q''\<rparr>, \<lparr>document = ''q''\<rparr>, \<lparr>document = ''q''\<rparr>], ())"
  using retrieve_passes_k_and_filter
    [where k = "Some 3" and self = "\<lparr>vector_store = counting_store, top_k = 2\<rparr>"
       and query = "''q''" and flt = None and p = example_pipeline and w = "()" and sp = None]
  by (simp add: counting_store_def eval_nat_numeral)

text \<open>The claim as stated fails at \<open>k = 0\<close>: a store asked for 0 documents returns none,
  but \<open>retrieve(query, k=0)\<close> with \<open>top_k = 2\<close> asks it for 2.\<close>

theorem retrieve_k_zero_counterexample:
  "similarity_search counting_store ''q'' 0 None () = (Inr [], ()) \<and>
   retrieve \<lparr>vector_store = counting_store, top_k = 2\<rparr> ''q'' (Some 0) None ()
     = (Inr [\<lparr>document = ''q''\<rparr>, \<lparr>document = ''q''\<rparr>], ())"
  by (simp add: retrieve_def k_or_top_k_def counting_store_def eval_nat_numeral)
end
